theory Spec2Isabelle
  imports Complex_Main "HOL-Library.AList"
begin

section \<open>Content-based recommender: TF-IDF index and cosine-similarity ranking\<close>

text \<open>
  This theory embeds the class \<open>AIRecommender\<close> of \<open>modules/ai_recommendation.py\<close>.
  Python values are modelled as follows.
  \<^item> A \<open>str\<close> is a \<open>string\<close>; Isabelle characters are 8-bit, so the model covers the
    code points 0 to 255.
  \<^item> A \<open>dict\<close> (and a \<open>Counter\<close>) is an association list in insertion order; storing
    under an existing key keeps the key's position, storing under a new key appends. The
    catalog handed to the constructor is a \<open>dict\<close>, so its keys are distinct: statements
    about a built index assume \<open>distinct (map fst cat)\<close>.
  \<^item> A \<open>set\<close> is the list of its elements without repetition; the order in which Python
    iterates over it only decides the order of the keys of the idf table, which nothing
    reads.
  \<^item> A \<open>float\<close> is the \<open>real\<close> it stands for. The rounding of the floating-point
    operations is a parameter of the model, a value of the record \<open>float_ops\<close>: an
    arithmetic operation, \<open>math.sqrt\<close> and \<open>round\<close> round their exact result once with
    \<open>rnd\<close>, in the order in which the code performs the operations, and \<open>math.log\<close>,
    \<open>x ** 2\<close> and \<open>sum\<close> are parameters of their own. Nothing else is assumed of them; a
    statement that needs a property of the rounding (it is monotone, zero and 5.0 are
    floats) names the property as a hypothesis. Exact arithmetic, \<open>exact_arith\<close>, is one
    value of the parameter; the examples are evaluated with it.
  \<^item> The division of the scoring loop raises \<open>ZeroDivisionError\<close> when the product of the
    two norms is zero; every other division is by an integer that is at least 1. The
    argument of \<open>math.log\<close> is \<open>1 + N / (count + 1)\<close>, which is at least 1 under binary
    floating point, so \<open>math.log\<close> does not raise. Infinities and NaN do not arise from
    these operations and are not modelled.
  \<^item> A destination is a record. The keys \<open>name\<close> and \<open>eco_score\<close> are always read with
    \<open>data[...]\<close> and are plain fields; the keys \<open>type\<close>, \<open>description\<close> and
    \<open>sustainability_features\<close> are read with \<open>data.get(...)\<close> somewhere and are optional
    fields, \<open>None\<close> standing for an absent key. A present \<open>type\<close> or
    \<open>sustainability_features\<close> is a list of strings.
  \<^item> An exception is a value \<open>Inl e\<close> of the sum type \<open>error + 'a\<close>.
\<close>

subsection \<open>Errors and dictionaries\<close>

datatype error = KeyError string | IndexError | ZeroDivisionError

type_synonym ('k, 'v) dict = "('k \<times> 'v) list"

definition dict_contains :: "('k, 'v) dict \<Rightarrow> 'k \<Rightarrow> bool" where
  \<comment> \<open>\<open>k in d\<close>\<close>
  "dict_contains d k = (map_of d k \<noteq> None)"

definition dict_get :: "('k, 'v) dict \<Rightarrow> 'k \<Rightarrow> 'v \<Rightarrow> 'v" where
  \<comment> \<open>\<open>d.get(k, default)\<close>\<close>
  "dict_get d k dflt = (case map_of d k of Some v \<Rightarrow> v | None \<Rightarrow> dflt)"

definition dict_item :: "(string, 'v) dict \<Rightarrow> string \<Rightarrow> error + 'v" where
  \<comment> \<open>\<open>d[k]\<close>\<close>
  "dict_item d k = (case map_of d k of Some v \<Rightarrow> Inr v | None \<Rightarrow> Inl (KeyError k))"

definition dict_set :: "('k, 'v) dict \<Rightarrow> 'k \<Rightarrow> 'v \<Rightarrow> ('k, 'v) dict" where
  \<comment> \<open>\<open>d[k] = v\<close>\<close>
  "dict_set d k v = AList.update k v d"

definition dict_of :: "('k \<times> 'v) list \<Rightarrow> ('k, 'v) dict" where
  \<comment> \<open>the dictionary built by storing the given items one after the other, as a loop
      \<open>for ...: d[k] = v\<close> or a dict comprehension does\<close>
  "dict_of items = fold (\<lambda>(k, v) d. dict_set d k v) items []"

definition list_item :: "'a list \<Rightarrow> nat \<Rightarrow> error + 'a" where
  \<comment> \<open>\<open>xs[i]\<close> for a non-negative index\<close>
  "list_item xs i = (if i < length xs then Inr (xs ! i) else Inl IndexError)"

definition counter_add :: "'k \<Rightarrow> ('k, nat) dict \<Rightarrow> ('k, nat) dict" where
  \<comment> \<open>one element counted by a \<open>Counter\<close>\<close>
  "counter_add t c = dict_set c t (dict_get c t 0 + 1)"

definition counter_update :: "('k, nat) dict \<Rightarrow> 'k list \<Rightarrow> ('k, nat) dict" where
  \<comment> \<open>\<open>c.update(iterable)\<close>\<close>
  "counter_update c xs = fold counter_add xs c"

definition Counter :: "'k list \<Rightarrow> ('k, nat) dict" where
  \<comment> \<open>\<open>Counter(iterable)\<close>\<close>
  "Counter xs = counter_update [] xs"

definition py_set :: "'a list \<Rightarrow> 'a list" where
  \<comment> \<open>\<open>set(xs)\<close>, as the list of its elements in some order\<close>
  "py_set xs = remdups xs"

subsection \<open>Strings\<close>

definition is_space :: "char \<Rightarrow> bool" where
  \<comment> \<open>the white space of \<open>str.split()\<close> and of \<open>\s\<close> in a \<open>str\<close> pattern\<close>
  "is_space c = (of_char c \<in> {9, 10, 11, 12, 13, 28, 29, 30, 31, 32, 133, 160 :: nat})"

definition lower_char :: "char \<Rightarrow> char" where
  "lower_char c =
     (let n = of_char c :: nat
      in if (65 \<le> n \<and> n \<le> 90) \<or> (192 \<le> n \<and> n \<le> 222 \<and> n \<noteq> 215)
         then char_of (n + 32) else c)"

definition str_lower :: "string \<Rightarrow> string" where
  \<comment> \<open>\<open>text.lower()\<close>\<close>
  "str_lower s = map lower_char s"

definition keep_char :: "char \<Rightarrow> bool" where
  \<comment> \<open>the characters that \<open>[^a-z0-9\s]\<close> does not match\<close>
  "keep_char c =
     (let n = of_char c :: nat
      in (97 \<le> n \<and> n \<le> 122) \<or> (48 \<le> n \<and> n \<le> 57) \<or> is_space c)"

definition strip_special :: "string \<Rightarrow> string" where
  \<comment> \<open>\<open>re.sub(r'[^a-z0-9\s]', '', text)\<close>\<close>
  "strip_special s = filter keep_char s"

fun split_from :: "string \<Rightarrow> string \<Rightarrow> string list" where
  "split_from w [] = (if w = [] then [] else [w])"
| "split_from w (c # cs) =
     (if is_space c then (if w = [] then split_from [] cs else w # split_from [] cs)
      else split_from (w @ [c]) cs)"

definition str_split :: "string \<Rightarrow> string list" where
  \<comment> \<open>\<open>text.split()\<close>: the maximal runs of characters that are not white space\<close>
  "str_split s = split_from [] s"

fun str_join :: "string \<Rightarrow> string list \<Rightarrow> string" where
  \<comment> \<open>\<open>sep.join(parts)\<close>\<close>
  "str_join sep [] = []"
| "str_join sep [x] = x"
| "str_join sep (x # y # ys) = x @ sep @ str_join sep (y # ys)"

subsection \<open>Numbers\<close>

record float_ops =
  rnd :: "real \<Rightarrow> real"
  flog :: "real \<Rightarrow> real"
  fsquare :: "real \<Rightarrow> real"
  fsum :: "real list \<Rightarrow> real"

text \<open>
  \<open>rnd\<close> rounds a real to the float that the arithmetic operations, \<open>math.sqrt\<close> and the
  conversion of a decimal return for it; \<open>flog\<close> is \<open>math.log\<close> and \<open>fsquare\<close> is
  \<open>x ** 2\<close>, the two operations that the C library computes; \<open>fsum\<close> is the built-in
  \<open>sum\<close> of one or more floats, taken in the order of the sequence.
\<close>

definition fadd :: "float_ops \<Rightarrow> real \<Rightarrow> real \<Rightarrow> real" where
  \<comment> \<open>\<open>x + y\<close>\<close>
  "fadd A x y = rnd A (x + y)"

definition fmul :: "float_ops \<Rightarrow> real \<Rightarrow> real \<Rightarrow> real" where
  \<comment> \<open>\<open>x * y\<close>\<close>
  "fmul A x y = rnd A (x * y)"

definition fdiv :: "float_ops \<Rightarrow> real \<Rightarrow> real \<Rightarrow> real" where
  \<comment> \<open>\<open>x / y\<close>, also of two integers\<close>
  "fdiv A x y = rnd A (x / y)"

definition float_div :: "float_ops \<Rightarrow> real \<Rightarrow> real \<Rightarrow> error + real" where
  \<comment> \<open>\<open>x / y\<close> for a float \<open>y\<close> that may be zero\<close>
  "float_div A x y = (if y = 0 then Inl ZeroDivisionError else Inr (fdiv A x y))"

definition fsqrt :: "float_ops \<Rightarrow> real \<Rightarrow> real" where
  \<comment> \<open>\<open>math.sqrt(x)\<close>\<close>
  "fsqrt A x = rnd A (sqrt x)"

definition py_sum :: "float_ops \<Rightarrow> real list \<Rightarrow> real" where
  \<comment> \<open>\<open>sum(xs)\<close>: the integer 0 when there is nothing to add\<close>
  "py_sum A xs = (if xs = [] then 0 else fsum A xs)"

definition exact_arith :: float_ops where
  \<comment> \<open>arithmetic without rounding\<close>
  "exact_arith = \<lparr>rnd = (\<lambda>x. x), flog = ln, fsquare = (\<lambda>x. x ^ 2), fsum = sum_list\<rparr>"

definition round_half_even :: "real \<Rightarrow> int" where
  "round_half_even x =
     (let f = \<lfloor>x\<rfloor>; d = x - of_int f
      in if d < 1 / 2 then f else if 1 / 2 < d then f + 1 else if even f then f else f + 1)"

definition py_round1 :: "float_ops \<Rightarrow> real \<Rightarrow> real" where
  \<comment> \<open>\<open>round(x, 1)\<close>: the float of the decimal with one digit that is nearest to \<open>x\<close>\<close>
  "py_round1 A x = rnd A (of_int (round_half_even (x * 10)) / 10)"

definition slice_to :: "'a list \<Rightarrow> int \<Rightarrow> 'a list" where
  \<comment> \<open>\<open>xs[:k]\<close>; a negative \<open>k\<close> counts from the end\<close>
  "slice_to xs k = (if 0 \<le> k then take (nat k) xs else take (length xs - nat (- k)) xs)"

definition sort_desc :: "(string \<times> real) list \<Rightarrow> (string \<times> real) list" where
  \<comment> \<open>\<open>scores.sort(key=lambda x: x[1], reverse=True)\<close>: a stable sort, largest key first\<close>
  "sort_desc scores = sort_key (\<lambda>x. - snd x) scores"

subsection \<open>Destinations, results and the recommender\<close>

record entry =
  name :: string
  type :: "string list option"
  eco_score :: int
  description :: "string option"
  sustainability_features :: "string list option"

record result =
  res_id :: string
  res_name :: string
  match_score :: real
  res_type :: "string list"
  res_eco_score :: int
  res_description :: string

record recommender =
  destinations :: "(string, entry) dict"
  corpus :: "string list"
  doc_ids :: "string list"
  idf :: "(string, real) dict"
  tf_vectors :: "(string, (string, real) dict) dict"
  doc_norms :: "(string, real) dict"

definition entry_field :: "string \<Rightarrow> 'a option \<Rightarrow> error + 'a" where
  \<comment> \<open>\<open>data[key]\<close> for an optional key\<close>
  "entry_field key v = (case v of Some x \<Rightarrow> Inr x | None \<Rightarrow> Inl (KeyError key))"

subsection \<open>\<open>_tokenize\<close>\<close>

definition stop_words :: "string list" where
  "stop_words = [''the'', ''a'', ''an'', ''and'', ''or'', ''but'', ''in'', ''on'', ''at'', ''to'',
     ''for'', ''of'', ''with'', ''by'', ''is'', ''are'', ''was'', ''were'']"

definition tokenize :: "string \<Rightarrow> string list" where
  "tokenize text =
     (let text1 = str_lower text;
          text2 = strip_special text1;
          words = str_split text2
      in filter (\<lambda>w. w \<notin> set stop_words) words)"

subsection \<open>\<open>_prepare_corpus\<close>\<close>

definition full_text :: "entry \<Rightarrow> string" where
  \<comment> \<open>the body of the loop, up to \<open>" ".join(text_parts)\<close>\<close>
  "full_text data =
     (let text_parts = [];
          text_parts = text_parts @ replicate 2 (name data);
          text_parts = (case type data of
                          Some ts \<Rightarrow> text_parts @ concat (replicate 2 ts)
                        | None \<Rightarrow> text_parts);
          text_parts = (case sustainability_features data of
                          Some fs \<Rightarrow> text_parts @ fs
                        | None \<Rightarrow> text_parts);
          text_parts = text_parts @ [case description data of Some d \<Rightarrow> d | None \<Rightarrow> '''']
      in str_join '' '' text_parts)"

definition prepare_corpus :: "recommender \<Rightarrow> recommender" where
  "prepare_corpus self =
     fold (\<lambda>(dest_id, data) s.
             s\<lparr>corpus := corpus s @ [full_text data], doc_ids := doc_ids s @ [dest_id]\<rparr>)
          (destinations self) self"

subsection \<open>\<open>_compute_tfidf\<close>\<close>

definition document_frequency :: "string list \<Rightarrow> (string, nat) dict" where
  \<comment> \<open>step 1: the counter \<open>df\<close> after the loop over the corpus\<close>
  "document_frequency docs =
     fold (\<lambda>doc df. let tokens = py_set (tokenize doc) in counter_update df tokens) docs []"

definition inverse_document_frequency ::
  "float_ops \<Rightarrow> nat \<Rightarrow> (string, nat) dict \<Rightarrow> (string, real) dict" where
  \<comment> \<open>step 2: the dict comprehension, \<open>math.log(1 + N / (count + 1))\<close> for every term\<close>
  "inverse_document_frequency A N df =
     dict_of (map (\<lambda>(term, count).
                     (term, flog A (fadd A 1 (fdiv A (real N) (real count + 1))))) df)"

definition tfidf_vector :: "float_ops \<Rightarrow> (string, real) dict \<Rightarrow> string \<Rightarrow> (string, real) dict" where
  \<comment> \<open>step 3: the vector \<open>vec\<close> of one document\<close>
  "tfidf_vector A idf_table doc_text =
     (let tokens = tokenize doc_text;
          term_counts = Counter tokens;
          total_terms = (if tokens \<noteq> [] then length tokens else 1)
      in dict_of (map (\<lambda>(term, count).
                         (term, fmul A (fdiv A (real count) (real total_terms))
                                  (dict_get idf_table term 0)))
                      term_counts))"

definition vector_norm :: "float_ops \<Rightarrow> (string, real) dict \<Rightarrow> real" where
  \<comment> \<open>\<open>math.sqrt(sum(score ** 2 for score in vec.values()))\<close>, the squares in the order
      of the dictionary\<close>
  "vector_norm A vec = fsqrt A (py_sum A (map (\<lambda>score. fsquare A score) (map snd vec)))"

fun tfidf_loop ::
  "float_ops \<Rightarrow> (nat \<times> string) list \<Rightarrow> recommender \<Rightarrow> error + recommender" where
  "tfidf_loop A [] self = Inr self"
| "tfidf_loop A ((i, doc_text) # rest) self =
     (let vec = tfidf_vector A (idf self) doc_text
      in case list_item (doc_ids self) i of
           Inl e \<Rightarrow> Inl e
         | Inr doc_id \<Rightarrow>
             tfidf_loop A rest
               (self\<lparr>tf_vectors := dict_set (tf_vectors self) doc_id vec,
                     doc_norms := dict_set (doc_norms self) doc_id (vector_norm A vec)\<rparr>))"

definition compute_tfidf :: "float_ops \<Rightarrow> recommender \<Rightarrow> error + recommender" where
  "compute_tfidf A self =
     (let N = length (corpus self);
          df = document_frequency (corpus self);
          self = self\<lparr>idf := inverse_document_frequency A N df\<rparr>
      in tfidf_loop A (enumerate 0 (corpus self)) self)"

definition AIRecommender :: "float_ops \<Rightarrow> (string, entry) dict \<Rightarrow> error + recommender" where
  \<comment> \<open>\<open>__init__\<close>\<close>
  "AIRecommender A destinations_data =
     (let self = \<lparr>destinations = destinations_data, corpus = [], doc_ids = [], idf = [],
                   tf_vectors = [], doc_norms = []\<rparr>;
          self = prepare_corpus self
      in compute_tfidf A self)"

subsection \<open>\<open>_vectorize_query\<close> and \<open>recommend\<close>\<close>

definition vectorize_query :: "float_ops \<Rightarrow> recommender \<Rightarrow> string \<Rightarrow> (string, real) dict" where
  "vectorize_query A self query =
     (let tokens = tokenize query;
          term_counts = Counter tokens;
          total_terms = (if tokens \<noteq> [] then length tokens else 1)
      in dict_of (map (\<lambda>(term, count).
                         (term, fmul A (fdiv A (real count) (real total_terms))
                                  (dict_get (idf self) term 0)))
                      (filter (\<lambda>(term, count). dict_contains (idf self) term) term_counts)))"

definition dot_product :: "float_ops \<Rightarrow> (string, real) dict \<Rightarrow> (string, real) dict \<Rightarrow> real" where
  \<comment> \<open>the inner loop: \<open>dot_product += q_score * dest_vec[term]\<close>, from 0\<close>
  "dot_product A query_vec dest_vec =
     fold (\<lambda>(term, q_score) acc.
             case map_of dest_vec term of
               Some d \<Rightarrow> fadd A acc (fmul A q_score d)
             | None \<Rightarrow> acc)
          query_vec 0"

fun score_loop ::
  "float_ops \<Rightarrow> recommender \<Rightarrow> (string, real) dict \<Rightarrow> real \<Rightarrow>
   (string, (string, real) dict) dict \<Rightarrow> error + (string \<times> real) list" where
  "score_loop A self query_vec query_norm [] = Inr []"
| "score_loop A self query_vec query_norm ((dest_id, dest_vec) # rest) =
     (let dot = dot_product A query_vec dest_vec
      in case dict_item (doc_norms self) dest_id of
           Inl e \<Rightarrow> Inl e
         | Inr dest_norm \<Rightarrow>
             (case (if 0 < dest_norm
                    then float_div A dot (fmul A query_norm dest_norm) else Inr 0) of
                Inl e \<Rightarrow> Inl e
              | Inr similarity \<Rightarrow>
                  (case score_loop A self query_vec query_norm rest of
                     Inl e \<Rightarrow> Inl e
                   | Inr scores \<Rightarrow> Inr ((dest_id, similarity) # scores))))"

definition format_result :: "float_ops \<Rightarrow> recommender \<Rightarrow> string \<Rightarrow> real \<Rightarrow> error + result" where
  \<comment> \<open>the record appended for one document, its keys evaluated in the order written\<close>
  "format_result A self dest_id score =
     (case dict_item (destinations self) dest_id of
        Inl e \<Rightarrow> Inl e
      | Inr dest \<Rightarrow>
          (case entry_field ''type'' (type dest) of
             Inl e \<Rightarrow> Inl e
           | Inr ty \<Rightarrow>
               (case entry_field ''description'' (description dest) of
                  Inl e \<Rightarrow> Inl e
                | Inr descr \<Rightarrow>
                    Inr \<lparr>res_id = dest_id, res_name = name dest,
                         match_score = py_round1 A (fmul A score 100), res_type = ty,
                         res_eco_score = eco_score dest, res_description = descr\<rparr>)))"

fun format_loop ::
  "float_ops \<Rightarrow> recommender \<Rightarrow> (string \<times> real) list \<Rightarrow> error + result list" where
  \<comment> \<open>the threshold is the float of the literal \<open>0.05\<close>\<close>
  "format_loop A self [] = Inr []"
| "format_loop A self ((dest_id, score) # rest) =
     (if rnd A (5 / 100) < score then
        (case format_result A self dest_id score of
           Inl e \<Rightarrow> Inl e
         | Inr r \<Rightarrow>
             (case format_loop A self rest of Inl e \<Rightarrow> Inl e | Inr rs \<Rightarrow> Inr (r # rs)))
      else format_loop A self rest)"

definition query_scores ::
  "float_ops \<Rightarrow> recommender \<Rightarrow> string \<Rightarrow> error + (string \<times> real) list" where
  \<comment> \<open>the list \<open>scores\<close> of \<open>recommend\<close> before it is sorted; \<open>recommend\<close> builds it
      only for a query norm other than zero\<close>
  "query_scores A self query =
     (let query_vec = vectorize_query A self query;
          query_norm = vector_norm A query_vec
      in score_loop A self query_vec query_norm (tf_vectors self))"

definition recommend ::
  "float_ops \<Rightarrow> recommender \<Rightarrow> string \<Rightarrow> int \<Rightarrow> error + result list" where
  "recommend A self query top_k =
     (let query_vec = vectorize_query A self query;
          query_norm = vector_norm A query_vec
      in if query_norm = 0 then Inr []
         else (case score_loop A self query_vec query_norm (tf_vectors self) of
                 Inl e \<Rightarrow> Inl e
               | Inr scores \<Rightarrow> format_loop A self (slice_to (sort_desc scores) top_k)))"

subsection \<open>\<open>get_suggestions\<close>\<close>

definition suggestion :: "string \<Rightarrow> entry \<Rightarrow> error + result" where
  "suggestion dest_id data =
     (case entry_field ''type'' (type data) of
        Inl e \<Rightarrow> Inl e
      | Inr ty \<Rightarrow>
          (case entry_field ''description'' (description data) of
             Inl e \<Rightarrow> Inl e
           | Inr descr \<Rightarrow>
               Inr \<lparr>res_id = dest_id, res_name = name data, match_score = 90, res_type = ty,
                    res_eco_score = eco_score data, res_description = descr\<rparr>))"

fun suggestion_loop :: "string \<Rightarrow> (string, entry) dict \<Rightarrow> error + result list" where
  "suggestion_loop context_type [] = Inr []"
| "suggestion_loop context_type ((dest_id, data) # rest) =
     (if context_type \<in> set (case type data of Some ts \<Rightarrow> ts | None \<Rightarrow> []) then
        (case suggestion dest_id data of
           Inl e \<Rightarrow> Inl e
         | Inr r \<Rightarrow>
             (case suggestion_loop context_type rest of
                Inl e \<Rightarrow> Inl e
              | Inr rs \<Rightarrow> Inr (r # rs)))
      else suggestion_loop context_type rest)"

definition get_suggestions :: "recommender \<Rightarrow> string \<Rightarrow> error + result list" where
  "get_suggestions self context_type =
     (case suggestion_loop context_type (destinations self) of
        Inl e \<Rightarrow> Inl e
      | Inr results \<Rightarrow> Inr (slice_to results 3))"

section \<open>Definitions for the statements\<close>

subsection \<open>Optional fields read with their defaults\<close>

text \<open>
  The optional fields of a destination as \<open>data.get\<close> reads them, and the record that
  \<open>get_suggestions\<close> builds from a destination that has them.
\<close>

definition entry_tags :: "entry \<Rightarrow> string list" where
  "entry_tags data = (case type data of Some ts \<Rightarrow> ts | None \<Rightarrow> [])"

definition entry_features :: "entry \<Rightarrow> string list" where
  "entry_features data = (case sustainability_features data of Some fs \<Rightarrow> fs | None \<Rightarrow> [])"

definition entry_description :: "entry \<Rightarrow> string" where
  "entry_description data = (case description data of Some d \<Rightarrow> d | None \<Rightarrow> [])"

definition suggested_record :: "string \<times> entry \<Rightarrow> result" where
  "suggested_record = (\<lambda>(dest_id, data).
     \<lparr>res_id = dest_id, res_name = name data, match_score = 90, res_type = entry_tags data,
      res_eco_score = eco_score data, res_description = entry_description data\<rparr>)"

subsection \<open>The index in closed form\<close>

text \<open>
  The number of documents that contain a term, one step of the document-frequency loop,
  and the recommender that \<open>__init__\<close> builds from a catalog with distinct keys.
\<close>

definition doc_count :: "string list \<Rightarrow> string \<Rightarrow> nat" where
  "doc_count docs t = length (filter (\<lambda>doc. t \<in> set (tokenize doc)) docs)"

definition df_step :: "string \<Rightarrow> (string, nat) dict \<Rightarrow> (string, nat) dict" where
  "df_step = (\<lambda>doc df. let tokens = py_set (tokenize doc) in counter_update df tokens)"

definition built_index :: "float_ops \<Rightarrow> (string, entry) dict \<Rightarrow> recommender" where
  "built_index A cat =
     (let docs = map (\<lambda>(dest_id, data). full_text data) cat;
          table = inverse_document_frequency A (length docs) (document_frequency docs)
      in \<lparr>destinations = cat, corpus = docs, doc_ids = map fst cat, idf = table,
          tf_vectors = map (\<lambda>(dest_id, data).
                              (dest_id, tfidf_vector A table (full_text data))) cat,
          doc_norms = map (\<lambda>(dest_id, data).
                             (dest_id, vector_norm A (tfidf_vector A table (full_text data))))
                        cat\<rparr>)"

subsection \<open>The specified ranking pipeline\<close>

text \<open>
  The pipeline as the specification words it: sort by similarity, keep the scores above the
  threshold, cut to \<open>top_k\<close>, format; \<open>collect\<close> stops at the first error.
\<close>

fun collect :: "(error + 'a) list \<Rightarrow> error + 'a list" where
  "collect [] = Inr []"
| "collect (x # xs) =
     (case x of
        Inl e \<Rightarrow> Inl e
      | Inr r \<Rightarrow> (case collect xs of Inl e \<Rightarrow> Inl e | Inr rs \<Rightarrow> Inr (r # rs)))"

definition above_threshold :: "float_ops \<Rightarrow> string \<times> real \<Rightarrow> bool" where
  "above_threshold A = (\<lambda>(dest_id, score). rnd A (5 / 100) < score)"

definition recommend_spec ::
  "float_ops \<Rightarrow> recommender \<Rightarrow> string \<Rightarrow> int \<Rightarrow> error + result list" where
  "recommend_spec A self query top_k =
     (if vector_norm A (vectorize_query A self query) = 0 then Inr []
      else (case query_scores A self query of
              Inl e \<Rightarrow> Inl e
            | Inr scores \<Rightarrow>
                collect (map (\<lambda>(dest_id, score). format_result A self dest_id score)
                           (take (nat top_k)
                              (filter (above_threshold A) (sort_desc scores))))))"

subsection \<open>Similarity and order\<close>

text \<open>
  The similarity that the scoring loop computes for one document vector when the product
  of the norms is not zero, the similarity \<open>recommend\<close> computes for a document id, and
  the order of two elements in a list.
\<close>

definition cosine ::
  "float_ops \<Rightarrow> (string, real) dict \<Rightarrow> real \<Rightarrow> (string, real) dict \<Rightarrow> real" where
  "cosine A query_vec query_norm dest_vec =
     (if 0 < vector_norm A dest_vec
      then fdiv A (dot_product A query_vec dest_vec) (fmul A query_norm (vector_norm A dest_vec))
      else 0)"



subsection \<open>Example catalogs\<close>

text \<open>
  Catalogs on which the operations are evaluated: two complete destinations; one
  destination with every field, tags and features of several words; two destinations with
  the same content; one destination whose similarity to the query \<open>beach\<close> is just above
  the threshold, with its document and tokens; one destination without a description.
\<close>

definition full_catalog :: "(string, entry) dict" where
  "full_catalog =
     [(''goa'', \<lparr>name = ''Goa'', type = Some [''nature''], eco_score = 7,
                description = Some ''Beaches'', sustainability_features = None\<rparr>),
      (''agra'', \<lparr>name = ''Agra'', type = Some [''cultural''], eco_score = 5,
                description = Some ''Taj Mahal'', sustainability_features = Some []\<rparr>)]"

definition kerala :: entry where
  "kerala = \<lparr>name = ''Kerala Backwaters'', type = Some [''nature'', ''relaxation''],
              eco_score = 9, description = Some ''Sustainable houseboat tourism'',
              sustainability_features = Some [''Solar houseboats'', ''Organic food'']\<rparr>"

definition twin_catalog :: "(string, entry) dict" where
  "twin_catalog =
     [(''goa_north'', \<lparr>name = ''Goa'', type = Some [''beach''], eco_score = 7,
                      description = Some ''Sunny'', sustainability_features = None\<rparr>),
      (''goa_south'', \<lparr>name = ''Goa'', type = Some [''beach''], eco_score = 6,
                      description = Some ''Sunny'', sustainability_features = None\<rparr>)]"




definition sparse_catalog :: "(string, entry) dict" where
  "sparse_catalog =
     [(''goa'', \<lparr>name = ''Goa'', type = Some [''beach''], eco_score = 7,
                description = None, sustainability_features = None\<rparr>)]"

section \<open>The tokenizer\<close>

lemma keep_char_alphabet:
  "\<forall>c. keep_char c = (c \<in> set ''abcdefghijklmnopqrstuvwxyz0123456789'' \<or> is_space c)"
  by code_simp

lemma str_lower_upper_case:
  "str_lower ''ABCDEFGHIJKLMNOPQRSTUVWXYZ'' = ''abcdefghijklmnopqrstuvwxyz''"
  by code_simp

lemma split_from_words:
  "x \<in> set (split_from w s) \<Longrightarrow> x \<noteq> [] \<and> set x \<subseteq> set w \<union> {c \<in> set s. \<not> is_space c}"
proof (induction s arbitrary: w x)
  case Nil
  then show ?case by (auto split: if_splits)
next
  case (Cons c cs)
  show ?case
  proof (cases "is_space c")
    case True
    then show ?thesis using Cons.IH[of x "[]"] Cons.prems
      by (auto split: if_splits)
  next
    case False
    then show ?thesis using Cons.IH[of x "w @ [c]"] Cons.prems
      by auto
  qed
qed

lemma split_from_concat:
  "concat (split_from w s) = w @ filter (\<lambda>c. \<not> is_space c) s"
  by (induction s arbitrary: w) auto

lemma str_split_words:
  assumes "x \<in> set (str_split s)"
  shows "x \<noteq> []" and "set x \<subseteq> {c \<in> set s. \<not> is_space c}"
  using split_from_words[of x "[]" s] assms by (auto simp: str_split_def)

lemma tokenize_example: "tokenize ''The Himalayan Trek!!'' = [''himalayan'', ''trek'']"
  by code_simp

lemma tokenize_empty: "tokenize [] = []"
  by code_simp

lemma tokenize_token:
  assumes "w \<in> set (tokenize text)"
  shows "w \<noteq> []" and "set w \<subseteq> set ''abcdefghijklmnopqrstuvwxyz0123456789''"
    and "w \<notin> set stop_words"
proof -
  let ?t = "strip_special (str_lower text)"
  from assms have w: "w \<in> set (str_split ?t)" and "w \<notin> set stop_words"
    by (auto simp: tokenize_def Let_def)
  then show "w \<notin> set stop_words" by simp
  from w show "w \<noteq> []" by (rule str_split_words)
  have "set w \<subseteq> {c \<in> set ?t. \<not> is_space c}" using w by (rule str_split_words)
  also have "\<dots> \<subseteq> {c. keep_char c \<and> \<not> is_space c}"
    by (auto simp: strip_special_def)
  also have "\<dots> \<subseteq> set ''abcdefghijklmnopqrstuvwxyz0123456789''"
    using keep_char_alphabet by blast
  finally show "set w \<subseteq> set ''abcdefghijklmnopqrstuvwxyz0123456789''" .
qed

text \<open>
  Claim C9. \<open>_tokenize\<close> lowercases the text, keeps only the characters \<open>a-z\<close>, \<open>0-9\<close>
  and white space, splits at white space and drops the eighteen stop words; every token
  is a non-empty word over \<open>a-z0-9\<close>; \<open>"The Himalayan Trek!!"\<close> gives
  \<open>["himalayan", "trek"]\<close> and the empty text gives no token.
\<close>

theorem tokenize_spec:
  "tokenize text =
     filter (\<lambda>w. w \<notin> {''the'', ''a'', ''an'', ''and'', ''or'', ''but'', ''in'', ''on'', ''at'',
                       ''to'', ''for'', ''of'', ''with'', ''by'', ''is'', ''are'', ''was'', ''were''})
       (str_split (filter (\<lambda>c. c \<in> set ''abcdefghijklmnopqrstuvwxyz0123456789'' \<or> is_space c)
                     (str_lower text)))
   \<and> (\<forall>w \<in> set (tokenize text).
         w \<noteq> [] \<and> set w \<subseteq> set ''abcdefghijklmnopqrstuvwxyz0123456789'')
   \<and> tokenize ''The Himalayan Trek!!'' = [''himalayan'', ''trek'']
   \<and> tokenize [] = []"
proof -
  have keep: "keep_char = (\<lambda>c. c \<in> set ''abcdefghijklmnopqrstuvwxyz0123456789'' \<or> is_space c)"
    using keep_char_alphabet by (intro ext) blast
  have "tokenize text =
     filter (\<lambda>w. w \<notin> set stop_words) (str_split (filter keep_char (str_lower text)))"
    by (simp add: tokenize_def strip_special_def)
  then have 1: "tokenize text =
     filter (\<lambda>w. w \<notin> {''the'', ''a'', ''an'', ''and'', ''or'', ''but'', ''in'', ''on'', ''at'',
                       ''to'', ''for'', ''of'', ''with'', ''by'', ''is'', ''are'', ''was'', ''were''})
       (str_split (filter (\<lambda>c. c \<in> set ''abcdefghijklmnopqrstuvwxyz0123456789'' \<or> is_space c)
                     (str_lower text)))"
    unfolding keep by (simp add: stop_words_def)
  have 2: "\<forall>w \<in> set (tokenize text).
         w \<noteq> [] \<and> set w \<subseteq> set ''abcdefghijklmnopqrstuvwxyz0123456789''"
    using tokenize_token(1,2) by blast
  show ?thesis using 1 2 tokenize_example tokenize_empty by blast
qed

theorem tokenize_spec_witness:
  "''himalayan'' \<in> set (tokenize ''The Himalayan Trek!!'')
   \<and> ''himalayan'' \<noteq> []
   \<and> set ''himalayan'' \<subseteq> set ''abcdefghijklmnopqrstuvwxyz0123456789''"
proof -
  have "''himalayan'' \<in> set (tokenize ''The Himalayan Trek!!'')" by code_simp
  then show ?thesis using tokenize_spec[of "''The Himalayan Trek!!''"] by blast
qed

section \<open>The corpus builder\<close>

lemma full_text_parts:
  "full_text data =
     str_join '' '' ([name data, name data] @ entry_tags data @ entry_tags data
                     @ entry_features data @ [entry_description data])"
  by (simp add: full_text_def entry_tags_def entry_features_def entry_description_def
        numeral_2_eq_2 split: option.splits)

lemma prepare_corpus_fold:
  "fold (\<lambda>(dest_id, data) s.
           s\<lparr>corpus := corpus s @ [full_text data], doc_ids := doc_ids s @ [dest_id]\<rparr>) ds self
   = self\<lparr>corpus := corpus self @ map (\<lambda>(dest_id, data). full_text data) ds,
          doc_ids := doc_ids self @ map fst ds\<rparr>"
  by (induction ds arbitrary: self) (auto simp: case_prod_beta)

lemma prepare_corpus_eq:
  "prepare_corpus self
   = self\<lparr>corpus := corpus self @ map (\<lambda>(dest_id, data). full_text data) (destinations self),
          doc_ids := doc_ids self @ map fst (destinations self)\<rparr>"
  unfolding prepare_corpus_def by (rule prepare_corpus_fold)

text \<open>The joined text is the parts, each followed by the separator, without the last one.\<close>

lemma str_join_concat:
  "parts \<noteq> [] \<Longrightarrow> str_join sep parts @ sep = concat (map (\<lambda>part. part @ sep) parts)"
proof (induction parts)
  case Nil
  then show ?case by simp
next
  case (Cons x parts)
  show ?case
  proof (cases parts)
    case Nil
    then show ?thesis by simp
  next
    case (Cons y ys)
    then show ?thesis using Cons.IH by simp
  qed
qed

text \<open>A blank between two texts separates their tokens and adds none.\<close>

lemma blank_char:
  "is_space CHR '' ''" "lower_char CHR '' '' = CHR '' ''" "keep_char CHR '' ''"
  by code_simp+

lemma split_from_append_space:
  "is_space c \<Longrightarrow> split_from w (xs @ c # ys) = split_from w xs @ split_from [] ys"
  by (induction xs arbitrary: w) auto

lemma str_split_append_blank: "str_split (a @ CHR '' '' # b) = str_split a @ str_split b"
  using split_from_append_space[OF blank_char(1), of "[]" a b] by (simp add: str_split_def)

lemma tokenize_append_blank: "tokenize (a @ '' '' @ b) = tokenize a @ tokenize b"
  by (simp add: tokenize_def str_lower_def strip_special_def blank_char str_split_append_blank)

lemma tokenize_str_join: "tokenize (str_join '' '' parts) = concat (map tokenize parts)"
proof (induction parts)
  case Nil
  then show ?case by (simp add: tokenize_empty)
next
  case (Cons x parts)
  show ?case
  proof (cases parts)
    case Nil
    then show ?thesis by simp
  next
    case (Cons y ys)
    have "tokenize (str_join '' '' (x # y # ys)) = tokenize (x @ '' '' @ str_join '' '' (y # ys))"
      by simp
    also have "\<dots> = tokenize x @ tokenize (str_join '' '' (y # ys))"
      by (rule tokenize_append_blank)
    finally show ?thesis using Cons.IH Cons by simp
  qed
qed

lemma full_text_tokens:
  "tokenize (full_text data) =
     tokenize (name data) @ tokenize (name data)
     @ concat (map tokenize (entry_tags data)) @ concat (map tokenize (entry_tags data))
     @ concat (map tokenize (entry_features data)) @ tokenize (entry_description data)"
  unfolding full_text_parts tokenize_str_join by simp

lemma full_text_kerala:
  "full_text kerala =
     ''Kerala Backwaters Kerala Backwaters nature relaxation nature relaxation Solar houseboats Organic food Sustainable houseboat tourism''"
  by code_simp

text \<open>
  Claim C5. \<open>_prepare_corpus\<close> appends, for every destination in the order of the
  catalog, one document and its id, the catalog key. The text of the document is its
  parts, each two of them separated by one blank: the name twice, the category tags twice,
  the sustainability features once, the description once. Its tokens are therefore the
  tokens of the name twice, of the tags twice, of the features once and of the description
  once, and a term is counted with these weights.
\<close>

theorem prepare_corpus_spec:
  "prepare_corpus self =
     self\<lparr>corpus := corpus self @ map (\<lambda>(dest_id, data). full_text data) (destinations self),
          doc_ids := doc_ids self @ map fst (destinations self)\<rparr>
   \<and> full_text data @ '' '' =
       concat (map (\<lambda>part. part @ '' '')
                 ([name data, name data] @ entry_tags data @ entry_tags data
                  @ entry_features data @ [entry_description data]))
   \<and> tokenize (full_text data) =
       tokenize (name data) @ tokenize (name data)
       @ concat (map tokenize (entry_tags data)) @ concat (map tokenize (entry_tags data))
       @ concat (map tokenize (entry_features data)) @ tokenize (entry_description data)
   \<and> count_list (tokenize (full_text data)) t =
       2 * count_list (tokenize (name data)) t
       + 2 * count_list (concat (map tokenize (entry_tags data))) t
       + count_list (concat (map tokenize (entry_features data))) t
       + count_list (tokenize (entry_description data)) t
   \<and> full_text kerala =
       ''Kerala Backwaters Kerala Backwaters nature relaxation nature relaxation Solar houseboats Organic food Sustainable houseboat tourism''"
proof -
  have "full_text data @ '' '' =
       concat (map (\<lambda>part. part @ '' '')
                 ([name data, name data] @ entry_tags data @ entry_tags data
                  @ entry_features data @ [entry_description data]))"
    unfolding full_text_parts by (rule str_join_concat) simp
  moreover have "count_list (tokenize (full_text data)) t =
       2 * count_list (tokenize (name data)) t
       + 2 * count_list (concat (map tokenize (entry_tags data))) t
       + count_list (concat (map tokenize (entry_features data))) t
       + count_list (tokenize (entry_description data)) t"
    by (simp add: full_text_tokens)
  ultimately show ?thesis
    using prepare_corpus_eq full_text_tokens full_text_kerala by blast
qed

theorem prepare_corpus_spec_witness:
  "corpus (prepare_corpus \<lparr>destinations = full_catalog, corpus = [], doc_ids = [], idf = [],
                            tf_vectors = [], doc_norms = []\<rparr>)
   = [''Goa Goa nature nature Beaches'', ''Agra Agra cultural cultural Taj Mahal'']
   \<and> doc_ids (prepare_corpus \<lparr>destinations = full_catalog, corpus = [], doc_ids = [], idf = [],
                               tf_vectors = [], doc_norms = []\<rparr>)
     = [''goa'', ''agra'']
   \<and> tokenize (full_text kerala) =
       [''kerala'', ''backwaters'', ''kerala'', ''backwaters'', ''nature'', ''relaxation'',
        ''nature'', ''relaxation'', ''solar'', ''houseboats'', ''organic'', ''food'',
        ''sustainable'', ''houseboat'', ''tourism'']"
proof -
  have t: "map (\<lambda>(dest_id, data). full_text data) full_catalog
           = [''Goa Goa nature nature Beaches'', ''Agra Agra cultural cultural Taj Mahal'']"
    by code_simp
  have k: "tokenize (name kerala) @ tokenize (name kerala)
       @ concat (map tokenize (entry_tags kerala)) @ concat (map tokenize (entry_tags kerala))
       @ concat (map tokenize (entry_features kerala)) @ tokenize (entry_description kerala)
     = [''kerala'', ''backwaters'', ''kerala'', ''backwaters'', ''nature'', ''relaxation'',
        ''nature'', ''relaxation'', ''solar'', ''houseboats'', ''organic'', ''food'',
        ''sustainable'', ''houseboat'', ''tourism'']"
    by code_simp
  have i: "map fst full_catalog = [''goa'', ''agra'']" by (simp add: full_catalog_def)
  let ?s = "\<lparr>destinations = full_catalog, corpus = [], doc_ids = [], idf = [],
             tf_vectors = [], doc_norms = []\<rparr>"
  have p: "prepare_corpus ?s =
             ?s\<lparr>corpus := corpus ?s @ map (\<lambda>(dest_id, data). full_text data) (destinations ?s),
                 doc_ids := doc_ids ?s @ map fst (destinations ?s)\<rparr>"
    using prepare_corpus_spec[of ?s kerala "[]"] by (rule conjunct1)
  have "tokenize (full_text kerala) =
       tokenize (name kerala) @ tokenize (name kerala)
       @ concat (map tokenize (entry_tags kerala)) @ concat (map tokenize (entry_tags kerala))
       @ concat (map tokenize (entry_features kerala)) @ tokenize (entry_description kerala)"
    using prepare_corpus_spec[of ?s kerala "[]"] by blast
  then show ?thesis unfolding p k by (simp add: t i)
qed

section \<open>The category fallback\<close>

lemma suggestion_loop_ok:
  assumes "\<forall>(dest_id, data) \<in> set ds.
             context_type \<in> set (entry_tags data) \<longrightarrow> description data \<noteq> None"
  shows "suggestion_loop context_type ds =
     Inr (map suggested_record
            (filter (\<lambda>(dest_id, data). context_type \<in> set (entry_tags data)) ds))"
  using assms
proof (induction ds)
  case Nil
  then show ?case by simp
next
  case (Cons p ds)
  obtain dest_id data where p: "p = (dest_id, data)" by (cases p)
  show ?case using Cons unfolding p
    by (auto simp: entry_tags_def entry_description_def suggested_record_def suggestion_def
          entry_field_def split: option.splits)
qed

lemma suggestion_loop_error:
  assumes "(dest_id, data) \<in> set ds" "context_type \<in> set (entry_tags data)"
    "description data = None"
  shows "suggestion_loop context_type ds = Inl (KeyError ''description'')"
  using assms
proof (induction ds)
  case Nil
  then show ?case by simp
next
  case (Cons p ds)
  obtain i d where p: "p = (i, d)" by (cases p)
  show ?case using Cons unfolding p
    by (auto simp: entry_tags_def suggestion_def entry_field_def split: option.splits sum.splits)
qed

text \<open>
  On a catalog whose entries with the given tag carry a description, \<open>get_suggestions\<close>
  returns the entries whose tag list contains the tag, in catalog order, cut to the first
  three, each with \<open>match_score\<close> 90.
\<close>

lemma get_suggestions_complete:
  assumes "\<forall>(dest_id, data) \<in> set (destinations self).
             context_type \<in> set (entry_tags data) \<longrightarrow> description data \<noteq> None"
  shows "\<exists>results. get_suggestions self context_type = Inr results
           \<and> results = take 3 (map suggested_record
                  (filter (\<lambda>(dest_id, data). context_type \<in> set (entry_tags data))
                     (destinations self)))
           \<and> length results \<le> 3
           \<and> (\<forall>r \<in> set results. match_score r = 90)"
proof -
  let ?rs = "take 3 (map suggested_record
                  (filter (\<lambda>(dest_id, data). context_type \<in> set (entry_tags data))
                     (destinations self)))"
  have "get_suggestions self context_type = Inr ?rs"
    using suggestion_loop_ok[OF assms] by (simp add: get_suggestions_def slice_to_def)
  moreover have "\<forall>r \<in> set ?rs. match_score r = 90"
    by (auto simp: suggested_record_def dest!: in_set_takeD)
  ultimately show ?thesis by simp
qed

lemma get_suggestions_full_catalog:
  "get_suggestions \<lparr>destinations = full_catalog, corpus = [], doc_ids = [], idf = [],
                    tf_vectors = [], doc_norms = []\<rparr> ''nature''
   = Inr [\<lparr>res_id = ''goa'', res_name = ''Goa'', match_score = 90, res_type = [''nature''],
           res_eco_score = 7, res_description = ''Beaches''\<rparr>]"
proof -
  have h: "\<forall>(dest_id, data) \<in> set full_catalog.
      ''nature'' \<in> set (entry_tags data) \<longrightarrow> description data \<noteq> None"
    by (simp add: full_catalog_def entry_tags_def)
  show ?thesis
    using h get_suggestions_complete[of "\<lparr>destinations = full_catalog, corpus = [],
                       doc_ids = [], idf = [], tf_vectors = [], doc_norms = []\<rparr>" "''nature''"]
    by (simp add: full_catalog_def entry_tags_def entry_description_def suggested_record_def)
qed

text \<open>
  Claim C8. \<open>get_suggestions\<close> is to return, for every catalog, the entries whose tag
  list contains the tag. For a destination that has the tag and no \<open>description\<close> key it
  raises \<open>KeyError\<close> at \<open>data['description']\<close> instead, whatever the index holds.
\<close>

theorem get_suggestions_missing_description:
  "filter (\<lambda>(dest_id, data). ''beach'' \<in> set (entry_tags data)) sparse_catalog = sparse_catalog
   \<and> get_suggestions \<lparr>destinations = sparse_catalog, corpus = c, doc_ids = i, idf = t,
                       tf_vectors = v, doc_norms = n\<rparr> ''beach''
     = Inl (KeyError ''description'')"
  by (simp add: get_suggestions_def sparse_catalog_def suggestion_def entry_field_def
        entry_tags_def)

section \<open>The index\<close>

lemma update_fresh: "k \<notin> fst ` set al \<Longrightarrow> AList.update k v al = al @ [(k, v)]"
  by (induction al) auto

lemma dict_of_fold:
  "distinct (map fst (acc @ items)) \<Longrightarrow>
   fold (\<lambda>(k, v) d. dict_set d k v) items acc = acc @ items"
proof (induction items arbitrary: acc)
  case Nil
  then show ?case by simp
next
  case (Cons p items)
  obtain k v where p: "p = (k, v)" by (cases p)
  have fresh: "k \<notin> fst ` set acc" using Cons.prems by (auto simp: p)
  have "distinct (map fst ((acc @ [(k, v)]) @ items))" using Cons.prems by (simp add: p)
  from Cons.IH[OF this] show ?case
    by (simp add: p dict_set_def update_fresh[OF fresh])
qed

lemma dict_of_distinct: "distinct (map fst items) \<Longrightarrow> dict_of items = items"
  using dict_of_fold[of "[]" items] by (simp add: dict_of_def)

lemma dict_get_counter_add:
  "dict_get (counter_add t c) u 0 = dict_get c u 0 + (if u = t then 1 else 0)"
  by (simp add: counter_add_def dict_set_def dict_get_def update_conv')

lemma keys_counter_add: "fst ` set (counter_add t c) = insert t (fst ` set c)"
  by (simp add: counter_add_def dict_set_def dom_update)

lemma distinct_counter_add:
  "distinct (map fst c) \<Longrightarrow> distinct (map fst (counter_add t c))"
  by (simp add: counter_add_def dict_set_def distinct_update)

lemma dict_get_counter_update:
  "dict_get (counter_update c xs) u 0 = dict_get c u 0 + count_list xs u"
  unfolding counter_update_def
  by (induction xs arbitrary: c) (auto simp: dict_get_counter_add)

lemma keys_counter_update: "fst ` set (counter_update c xs) = fst ` set c \<union> set xs"
  unfolding counter_update_def
  by (induction xs arbitrary: c) (auto simp: keys_counter_add)

lemma distinct_counter_update:
  "distinct (map fst c) \<Longrightarrow> distinct (map fst (counter_update c xs))"
  unfolding counter_update_def
  by (induction xs arbitrary: c) (auto simp: distinct_counter_add)

lemma count_list_remdups: "count_list (remdups xs) u = (if u \<in> set xs then 1 else 0)"
  by (induction xs) auto

lemma df_fold_get:
  "dict_get (fold df_step docs df) t 0 = dict_get df t 0 + doc_count docs t"
  by (induction docs arbitrary: df)
     (auto simp: df_step_def doc_count_def py_set_def dict_get_counter_update count_list_remdups)

lemma df_fold_keys:
  "fst ` set (fold df_step docs df) = fst ` set df \<union> (\<Union>doc \<in> set docs. set (tokenize doc))"
  by (induction docs arbitrary: df)
     (auto simp: df_step_def py_set_def keys_counter_update)

lemma df_fold_distinct:
  "distinct (map fst df) \<Longrightarrow> distinct (map fst (fold df_step docs df))"
  by (induction docs arbitrary: df)
     (auto simp: df_step_def py_set_def distinct_counter_update)

lemma document_frequency_fold: "document_frequency docs = fold df_step docs []"
  by (simp add: document_frequency_def df_step_def)

lemma document_frequency_distinct: "distinct (map fst (document_frequency docs))"
  by (simp add: document_frequency_fold df_fold_distinct)

lemma document_frequency_keys:
  "fst ` set (document_frequency docs) = (\<Union>doc \<in> set docs. set (tokenize doc))"
  by (simp add: document_frequency_fold df_fold_keys)

lemma document_frequency_get:
  "dict_get (document_frequency docs) t 0 = doc_count docs t"
  using df_fold_get[of docs "[]" t] by (simp add: document_frequency_fold dict_get_def)

lemma doc_count_pos: "0 < doc_count docs t \<longleftrightarrow> (\<exists>doc \<in> set docs. t \<in> set (tokenize doc))"
  by (auto simp: doc_count_def filter_empty_conv)

lemma document_frequency_lookup:
  "map_of (document_frequency docs) t =
     (if \<exists>doc \<in> set docs. t \<in> set (tokenize doc) then Some (doc_count docs t) else None)"
proof (cases "t \<in> fst ` set (document_frequency docs)")
  case True
  then obtain c where c: "map_of (document_frequency docs) t = Some c"
    by (metis domD dom_map_of_conv_image_fst)
  then have "c = doc_count docs t"
    using document_frequency_get[of docs t] by (simp add: dict_get_def)
  then show ?thesis using c True by (simp add: document_frequency_keys)
next
  case False
  then have "map_of (document_frequency docs) t = None"
    by (simp add: map_of_eq_None_iff)
  then show ?thesis using False by (simp add: document_frequency_keys)
qed

lemma inverse_document_frequency_eq:
  "distinct (map fst df) \<Longrightarrow>
   inverse_document_frequency A N df
   = map (\<lambda>(term, count). (term, flog A (fadd A 1 (fdiv A (real N) (real count + 1))))) df"
  unfolding inverse_document_frequency_def
  by (rule dict_of_distinct) (simp add: case_prod_beta comp_def)

lemma inverse_document_frequency_lookup:
  "map_of (inverse_document_frequency A (length docs) (document_frequency docs)) t =
     (if \<exists>doc \<in> set docs. t \<in> set (tokenize doc)
      then Some (flog A (fadd A 1 (fdiv A (real (length docs)) (real (doc_count docs t) + 1)))) else None)"
proof -
  have "map_of (inverse_document_frequency A (length docs) (document_frequency docs)) t
        = map_option (\<lambda>count. flog A (fadd A 1 (fdiv A (real (length docs)) (real count + 1))))
            (map_of (document_frequency docs) t)"
    unfolding inverse_document_frequency_eq[OF document_frequency_distinct]
    by (simp add: map_of_map)
  then show ?thesis by (simp add: document_frequency_lookup)
qed

lemma list_item_in_range: "i < length xs \<Longrightarrow> list_item xs i = Inr (xs ! i)"
  by (simp add: list_item_def)

lemma nth_not_in_take: "distinct xs \<Longrightarrow> n < length xs \<Longrightarrow> xs ! n \<notin> set (take n xs)"
  by (metis distinct_take id_take_nth_drop not_distinct_conv_prefix take_Suc_conv_app_nth
        distinct.simps(2) distinct_append append_Cons append_Nil disjoint_insert(1) list.set(2)
        distinct_rev rev.simps(2) set_rev)

lemma tfidf_loop_invariant:
  assumes "n + length docs \<le> length (doc_ids self)"
  shows "\<exists>self'. tfidf_loop A (enumerate n docs) self = Inr self' \<and> idf self' = idf self
           \<and> destinations self' = destinations self \<and> corpus self' = corpus self
           \<and> doc_ids self' = doc_ids self"
  using assms
proof (induction docs arbitrary: n self)
  case Nil
  then show ?case by simp
next
  case (Cons d ds)
  let ?vec = "tfidf_vector A (idf self) d"
  let ?s1 = "self\<lparr>tf_vectors := dict_set (tf_vectors self) (doc_ids self ! n) ?vec,
                   doc_norms := dict_set (doc_norms self) (doc_ids self ! n) (vector_norm A ?vec)\<rparr>"
  have n: "n < length (doc_ids self)" using Cons.prems by simp
  have "Suc n + length ds \<le> length (doc_ids ?s1)" using Cons.prems by simp
  from Cons.IH[OF this] show ?case
    by (simp add: list_item_in_range[OF n] Let_def)
qed

lemma tfidf_loop_closed:
  assumes "n + length docs = length (doc_ids self)"
    and "distinct (doc_ids self)"
    and "map fst (tf_vectors self) = take n (doc_ids self)"
    and "map fst (doc_norms self) = take n (doc_ids self)"
  shows "tfidf_loop A (enumerate n docs) self =
     Inr (self\<lparr>tf_vectors := tf_vectors self @
                  map (\<lambda>(doc_id, doc). (doc_id, tfidf_vector A (idf self) doc))
                    (zip (drop n (doc_ids self)) docs),
               doc_norms := doc_norms self @
                  map (\<lambda>(doc_id, doc). (doc_id, vector_norm A (tfidf_vector A (idf self) doc)))
                    (zip (drop n (doc_ids self)) docs)\<rparr>)"
  using assms
proof (induction docs arbitrary: n self)
  case Nil
  then show ?case by simp
next
  case (Cons d ds)
  let ?ids = "doc_ids self"
  let ?vec = "tfidf_vector A (idf self) d"
  let ?s1 = "self\<lparr>tf_vectors := tf_vectors self @ [(?ids ! n, ?vec)],
                   doc_norms := doc_norms self @ [(?ids ! n, vector_norm A ?vec)]\<rparr>"
  have n: "n < length ?ids" using Cons.prems(1) by simp
  have fresh: "?ids ! n \<notin> set (take n ?ids)"
    using nth_not_in_take[OF Cons.prems(2) n] .
  have f1: "?ids ! n \<notin> fst ` set (tf_vectors self)"
    using fresh Cons.prems(3) by (metis set_map)
  have f2: "?ids ! n \<notin> fst ` set (doc_norms self)"
    using fresh Cons.prems(4) by (metis set_map)
  have step: "tfidf_loop A (enumerate n (d # ds)) self = tfidf_loop A (enumerate (Suc n) ds) ?s1"
    by (simp add: list_item_in_range[OF n] Let_def dict_set_def update_fresh[OF f1]
          update_fresh[OF f2])
  have "tfidf_loop A (enumerate (Suc n) ds) ?s1 =
     Inr (?s1\<lparr>tf_vectors := tf_vectors ?s1 @
                  map (\<lambda>(doc_id, doc). (doc_id, tfidf_vector A (idf ?s1) doc))
                    (zip (drop (Suc n) (doc_ids ?s1)) ds),
               doc_norms := doc_norms ?s1 @
                  map (\<lambda>(doc_id, doc). (doc_id, vector_norm A (tfidf_vector A (idf ?s1) doc)))
                    (zip (drop (Suc n) (doc_ids ?s1)) ds)\<rparr>)"
  proof (rule Cons.IH)
    show "Suc n + length ds = length (doc_ids ?s1)" using Cons.prems(1) by simp
    show "distinct (doc_ids ?s1)" using Cons.prems(2) by simp
    show "map fst (tf_vectors ?s1) = take (Suc n) (doc_ids ?s1)"
      using Cons.prems(3) n by (simp add: take_Suc_conv_app_nth)
    show "map fst (doc_norms ?s1) = take (Suc n) (doc_ids ?s1)"
      using Cons.prems(4) n by (simp add: take_Suc_conv_app_nth)
  qed
  moreover have "drop n ?ids = ?ids ! n # drop (Suc n) ?ids"
    using n by (simp add: Cons_nth_drop_Suc)
  ultimately show ?case unfolding step by simp
qed

lemma AIRecommender_built:
  assumes "distinct (map fst cat)"
  shows "AIRecommender A cat = Inr (built_index A cat)"
proof -
  let ?docs = "map (\<lambda>(dest_id, data). full_text data) cat"
  let ?table = "inverse_document_frequency A (length ?docs) (document_frequency ?docs)"
  let ?s = "\<lparr>destinations = cat, corpus = ?docs, doc_ids = map fst cat, idf = ?table,
             tf_vectors = [], doc_norms = []\<rparr>"
  have "AIRecommender A cat = tfidf_loop A (enumerate 0 ?docs) ?s"
    by (simp add: AIRecommender_def prepare_corpus_eq compute_tfidf_def Let_def)
  also have "\<dots> = Inr (?s\<lparr>tf_vectors := tf_vectors ?s @
                  map (\<lambda>(doc_id, doc). (doc_id, tfidf_vector A (idf ?s) doc))
                    (zip (drop 0 (doc_ids ?s)) ?docs),
               doc_norms := doc_norms ?s @
                  map (\<lambda>(doc_id, doc). (doc_id, vector_norm A (tfidf_vector A (idf ?s) doc)))
                    (zip (drop 0 (doc_ids ?s)) ?docs)\<rparr>)"
    by (rule tfidf_loop_closed) (use assms in simp_all)
  also have "\<dots> = Inr (built_index A cat)"
    by (simp add: built_index_def Let_def zip_map_map zip_same_conv_map case_prod_beta comp_def)
  finally show ?thesis .
qed

lemma AIRecommender_total:
  "\<exists>self. AIRecommender A cat = Inr self \<and> destinations self = cat
     \<and> corpus self = map (\<lambda>(dest_id, data). full_text data) cat
     \<and> idf self = inverse_document_frequency A (length cat)
                     (document_frequency (map (\<lambda>(dest_id, data). full_text data) cat))"
proof -
  let ?docs = "map (\<lambda>(dest_id, data). full_text data) cat"
  let ?table = "inverse_document_frequency A (length ?docs) (document_frequency ?docs)"
  let ?s = "\<lparr>destinations = cat, corpus = ?docs, doc_ids = map fst cat, idf = ?table,
             tf_vectors = [], doc_norms = []\<rparr>"
  have eq: "AIRecommender A cat = tfidf_loop A (enumerate 0 ?docs) ?s"
    by (simp add: AIRecommender_def prepare_corpus_eq compute_tfidf_def Let_def)
  have "0 + length ?docs \<le> length (doc_ids ?s)" by simp
  from tfidf_loop_invariant[OF this] show ?thesis unfolding eq by auto
qed

section \<open>The query matcher\<close>

lemma collect_Inr: "collect xs = Inr rs \<Longrightarrow> xs = map Inr rs"
  by (induction xs arbitrary: rs) (auto split: sum.splits)

lemma collect_length: "collect xs = Inr rs \<Longrightarrow> length rs = length xs"
  by (drule collect_Inr) simp

lemma format_loop_collect:
  "format_loop A self xs =
     collect (map (\<lambda>(dest_id, score). format_result A self dest_id score)
                (filter (above_threshold A) xs))"
  by (induction xs) (auto simp: above_threshold_def split: sum.splits)

lemma filter_take_sorted:
  assumes "sorted_wrt (\<lambda>a b. P b \<longrightarrow> P a) ys"
  shows "filter P (take n ys) = take n (filter P ys)"
  using assms
proof (induction ys arbitrary: n)
  case Nil
  then show ?case by simp
next
  case (Cons y ys)
  show ?case
  proof (cases n)
    case 0
    then show ?thesis by simp
  next
    case (Suc m)
    show ?thesis
    proof (cases "P y")
      case True
      then show ?thesis using Cons Suc by simp
    next
      case False
      then have "\<forall>z \<in> set ys. \<not> P z" using Cons.prems by auto
      then have "filter P ys = []" "filter P (take m ys) = []"
        by (auto simp: filter_empty_conv dest: in_set_takeD)
      then show ?thesis using False Suc by simp
    qed
  qed
qed

lemma sort_desc_sorted: "sorted_wrt (\<lambda>a b. snd b \<le> snd a) (sort_desc scores)"
proof -
  have "sorted (map (\<lambda>x. - snd x) (sort_desc scores))"
    unfolding sort_desc_def by (rule sorted_sort_key)
  then show ?thesis by (simp add: sorted_map)
qed

lemma sort_desc_threshold:
  "sorted_wrt (\<lambda>a b. above_threshold A b \<longrightarrow> above_threshold A a) (sort_desc scores)"
  by (rule sorted_wrt_mono_rel[OF _ sort_desc_sorted]) (auto simp: above_threshold_def)

lemma recommend_eq_spec:
  assumes "0 \<le> top_k"
  shows "recommend A self query top_k = recommend_spec A self query top_k"
  using assms
  by (simp add: recommend_def recommend_spec_def query_scores_def Let_def slice_to_def
        format_loop_collect filter_take_sorted[OF sort_desc_threshold] split: sum.splits)

text \<open>
  Claim C3. For \<open>top_k \<ge> 0\<close>, \<open>recommend\<close> returns what the specified pipeline
  \<open>recommend_spec\<close> returns: the scores sorted by similarity, largest first, then only
  those above 0.05, then the first \<open>top_k\<close> of them, formatted, for every rounding of
  the floating-point operations. The code cuts to
  \<open>top_k\<close> before it filters; on a list sorted in descending order the two orders of
  the steps give the same list. A returned list has at most \<open>top_k\<close> records.
\<close>

theorem recommend_refines_spec:
  assumes "0 \<le> top_k"
  shows "recommend A self query top_k = recommend_spec A self query top_k
         \<and> (\<forall>results. recommend A self query top_k = Inr results
               \<longrightarrow> length results \<le> nat top_k)"
proof -
  have "length results \<le> nat top_k" if "recommend_spec A self query top_k = Inr results"
    for results
    using that
    by (auto simp: recommend_spec_def split: if_splits sum.splits dest!: collect_length)
  then show ?thesis using recommend_eq_spec[OF assms] by simp
qed



lemma score_loop_norms:
  assumes "\<forall>(dest_id, vec) \<in> set tfv.
             map_of (doc_norms self) dest_id = Some (vector_norm A vec)"
    and "\<forall>(dest_id, vec) \<in> set tfv.
             0 < vector_norm A vec \<longrightarrow> fmul A qn (vector_norm A vec) \<noteq> 0"
  shows "score_loop A self qv qn tfv
         = Inr (map (\<lambda>(dest_id, vec). (dest_id, cosine A qv qn vec)) tfv)"
  using assms
proof (induction tfv)
  case Nil
  then show ?case by simp
next
  case (Cons p tfv)
  obtain dest_id vec where p: "p = (dest_id, vec)" by (cases p)
  show ?case using Cons unfolding p
    by (simp add: dict_item_def cosine_def float_div_def Let_def)
qed

lemma built_index_norms:
  assumes "distinct (map fst cat)"
  shows "\<forall>(dest_id, vec) \<in> set (tf_vectors (built_index A cat)).
           map_of (doc_norms (built_index A cat)) dest_id = Some (vector_norm A vec)"
proof -
  let ?docs = "map (\<lambda>(dest_id, data). full_text data) cat"
  let ?table = "inverse_document_frequency A (length ?docs) (document_frequency ?docs)"
  let ?norms = "map (\<lambda>(dest_id, data).
                       (dest_id, vector_norm A (tfidf_vector A ?table (full_text data)))) cat"
  have d: "distinct (map fst ?norms)" using assms by (simp add: case_prod_beta comp_def)
  have "map_of ?norms dest_id = Some (vector_norm A (tfidf_vector A ?table (full_text data)))"
    if "(dest_id, data) \<in> set cat" for dest_id data
    by (rule map_of_is_SomeI[OF d]) (use that in force)
  then show ?thesis by (auto simp: built_index_def Let_def)
qed

lemma query_scores_built:
  assumes "distinct (map fst cat)"
    and "\<forall>(dest_id, vec) \<in> set (tf_vectors (built_index A cat)).
           0 < vector_norm A vec \<longrightarrow>
           fmul A (vector_norm A (vectorize_query A (built_index A cat) query))
             (vector_norm A vec) \<noteq> 0"
  shows "query_scores A (built_index A cat) query =
     Inr (map (\<lambda>(dest_id, vec).
                 (dest_id, cosine A (vectorize_query A (built_index A cat) query)
                             (vector_norm A (vectorize_query A (built_index A cat) query)) vec))
            (tf_vectors (built_index A cat)))"
  unfolding query_scores_def Let_def
  by (rule score_loop_norms[OF built_index_norms[OF assms(1)] assms(2)])


subsection \<open>Stable descending sort\<close>











subsection \<open>Rounding\<close>




subsection \<open>Vectors\<close>

lemma Counter_distinct: "distinct (map fst (Counter tokens))"
  by (simp add: Counter_def distinct_counter_update)

lemma Counter_keys: "fst ` set (Counter tokens) = set tokens"
  by (simp add: Counter_def keys_counter_update)

lemma tfidf_vector_eq:
  "tfidf_vector A table doc_text =
     map (\<lambda>(term, count).
            (term, fmul A (fdiv A (real count)
                                   (real (if tokenize doc_text \<noteq> []
                                          then length (tokenize doc_text) else 1)))
                           (dict_get table term 0)))
         (Counter (tokenize doc_text))"
  unfolding tfidf_vector_def Let_def
  by (rule dict_of_distinct) (simp add: case_prod_beta comp_def Counter_distinct)

lemma vectorize_query_eq:
  "vectorize_query A self query =
     map (\<lambda>(term, count).
            (term, fmul A (fdiv A (real count)
                                   (real (if tokenize query \<noteq> []
                                          then length (tokenize query) else 1)))
                           (dict_get (idf self) term 0)))
         (filter (\<lambda>(term, count). dict_contains (idf self) term) (Counter (tokenize query)))"
  unfolding vectorize_query_def Let_def
  by (rule dict_of_distinct)
     (simp add: case_prod_beta comp_def Counter_distinct distinct_map_filter)

lemma tfidf_vector_distinct: "distinct (map fst (tfidf_vector A table doc_text))"
  by (simp add: tfidf_vector_eq case_prod_beta comp_def Counter_distinct)

lemma vectorize_query_distinct: "distinct (map fst (vectorize_query A self query))"
  by (simp add: vectorize_query_eq case_prod_beta comp_def Counter_distinct distinct_map_filter)



lemma vectorize_query_unknown:
  assumes "\<forall>t \<in> set (tokenize query). \<not> dict_contains (idf self) t"
  shows "vectorize_query A self query = []"
proof -
  have "filter (\<lambda>(term, count). dict_contains (idf self) term) (Counter (tokenize query)) = []"
    using assms Counter_keys[of "tokenize query"] by (force simp: filter_empty_conv)
  then show ?thesis by (simp add: vectorize_query_eq)
qed

lemma vector_norm_Nil: "rnd A 0 = 0 \<Longrightarrow> vector_norm A [] = 0"
  by (simp add: vector_norm_def fsqrt_def py_sum_def)

text \<open>
  Claim C7. A query whose vector has norm zero gets the empty list and no error. The norm
  is zero when no token of the query is in the idf table; a query of stop words only has
  no token at all; and so has the empty query. The rounding only has to leave zero as it
  is: the sum over no term is 0 and its square root is 0.0.
\<close>

theorem no_signal_query:
  assumes "rnd A 0 = 0"
  shows "(vector_norm A (vectorize_query A self query) = 0
            \<longrightarrow> recommend A self query top_k = Inr [])
   \<and> ((\<forall>t \<in> set (tokenize query). \<not> dict_contains (idf self) t)
        \<longrightarrow> vector_norm A (vectorize_query A self query) = 0)
   \<and> (set (str_split (strip_special (str_lower query))) \<subseteq> set stop_words
        \<longrightarrow> tokenize query = [])
   \<and> recommend A self [] top_k = Inr []"
proof -
  have 1: "recommend A self q top_k = Inr []"
    if "vector_norm A (vectorize_query A self q) = 0" for q
    using that by (simp add: recommend_def)
  have 2: "vector_norm A (vectorize_query A self q) = 0"
    if "\<forall>t \<in> set (tokenize q). \<not> dict_contains (idf self) t" for q
    using vectorize_query_unknown[OF that] by (simp add: vector_norm_Nil[OF assms])
  have 3: "tokenize query = []"
    if "set (str_split (strip_special (str_lower query))) \<subseteq> set stop_words"
    using that by (auto simp: tokenize_def Let_def filter_empty_conv)
  have "recommend A self [] top_k = Inr []"
    by (rule 1, rule 2) (simp add: tokenize_empty)
  then show ?thesis using 1 2 3 by blast
qed

lemma tfidf_loop_idf: "tfidf_loop A xs s = Inr s' \<Longrightarrow> idf s' = idf s"
proof (induction xs s rule: tfidf_loop.induct)
  case (1 self)
  then show ?case by simp
next
  case (2 i doc_text rest self)
  then show ?case by (auto simp: Let_def split: sum.splits)
qed

text \<open>
  Claim C4. After \<open>_compute_tfidf\<close> the idf table has an entry exactly for the terms
  that occur in a document of the corpus, and the entry of a term is the float that the
  code computes for \<open>math.log(1 + N / (df + 1))\<close>, with \<open>N\<close> the number of documents and
  \<open>df\<close> the number of documents among whose tokens the term occurs; without rounding it
  is \<open>ln (1 + N / (df + 1))\<close>.
\<close>

theorem idf_table_spec:
  "(compute_tfidf A self = Inr self' \<longrightarrow>
      map_of (idf self') t =
        (if \<exists>doc \<in> set (corpus self). t \<in> set (tokenize doc)
         then Some (flog A (fadd A 1 (fdiv A (real (length (corpus self)))
                 (real (length (filter (\<lambda>doc. t \<in> set (tokenize doc)) (corpus self))) + 1))))
         else None))
   \<and> (compute_tfidf exact_arith self = Inr self'' \<longrightarrow>
      map_of (idf self'') t =
        (if \<exists>doc \<in> set (corpus self). t \<in> set (tokenize doc)
         then Some (ln (1 + real (length (corpus self))
                 / (real (length (filter (\<lambda>doc. t \<in> set (tokenize doc)) (corpus self))) + 1)))
         else None))"
proof -
  have g: "map_of (idf s') t =
        (if \<exists>doc \<in> set (corpus self). t \<in> set (tokenize doc)
         then Some (flog B (fadd B 1 (fdiv B (real (length (corpus self)))
                 (real (length (filter (\<lambda>doc. t \<in> set (tokenize doc)) (corpus self))) + 1))))
         else None)" if "compute_tfidf B self = Inr s'" for B s'
  proof -
    have "idf s' = inverse_document_frequency B (length (corpus self))
                      (document_frequency (corpus self))"
      using tfidf_loop_idf[of B _ _ s'] that by (simp add: compute_tfidf_def Let_def)
    then show ?thesis
      using inverse_document_frequency_lookup[of B "corpus self" t] by (simp add: doc_count_def)
  qed
  show ?thesis using g[of A self'] g[of exact_arith self'']
    by (simp add: exact_arith_def fadd_def fdiv_def)
qed

section \<open>Worked catalogs\<close>

text \<open>The operations without rounding.\<close>

lemma exact_ops:
  "rnd exact_arith x = x" "flog exact_arith x = ln x" "fsquare exact_arith x = x\<^sup>2"
  "fadd exact_arith x y = x + y" "fmul exact_arith x y = x * y"
  "fdiv exact_arith x y = x / y" "fsqrt exact_arith x = sqrt x"
  by (simp_all add: exact_arith_def fadd_def fmul_def fdiv_def fsqrt_def)

lemma py_sum_exact: "py_sum exact_arith xs = sum_list xs"
  by (simp add: py_sum_def exact_arith_def)

lemma vector_norm_exact:
  "vector_norm exact_arith vec = sqrt (sum_list (map (\<lambda>score. score\<^sup>2) (map snd vec)))"
  by (simp add: vector_norm_def exact_ops py_sum_exact comp_def)

lemma exact_denominator:
  assumes "vector_norm exact_arith qv \<noteq> 0"
  shows "\<forall>(dest_id, vec) \<in> set tfv.
           0 < vector_norm exact_arith vec \<longrightarrow>
           fmul exact_arith (vector_norm exact_arith qv) (vector_norm exact_arith vec) \<noteq> 0"
  using assms by (auto simp: exact_ops)

lemma exact_rounding:
  "mono (rnd exact_arith)" "rnd exact_arith 0 = 0" "rnd exact_arith 5 = 5"
  "5 / 100 \<le> rnd exact_arith (5 / 100)"
  by (simp_all add: exact_ops mono_def)

lemma twin_distinct: "distinct (map fst twin_catalog)"
  by (simp add: twin_catalog_def)

lemma twin_docs:
  "map (\<lambda>(dest_id, data). full_text data) twin_catalog
   = [''Goa Goa beach beach Sunny'', ''Goa Goa beach beach Sunny'']"
  by (simp add: twin_catalog_def full_text_def numeral_2_eq_2)

lemma twin_tokens:
  "tokenize ''Goa Goa beach beach Sunny'' = [''goa'', ''goa'', ''beach'', ''beach'', ''sunny'']"
  by code_simp

lemma twin_counter:
  "Counter [''goa'', ''goa'', ''beach'', ''beach'', ''sunny'']
   = [(''goa'', 2), (''beach'', 2), (''sunny'', 1)]"
  by code_simp

lemma twin_df:
  "document_frequency [''Goa Goa beach beach Sunny'', ''Goa Goa beach beach Sunny'']
   = [(''goa'', 2), (''beach'', 2), (''sunny'', 2)]"
  by code_simp

lemma twin_idf:
  "idf (built_index exact_arith twin_catalog)
   = [(''goa'', ln (5 / 3)), (''beach'', ln (5 / 3)), (''sunny'', ln (5 / 3))]"
  by (simp add: built_index_def Let_def twin_docs twin_df
        inverse_document_frequency_eq[OF document_frequency_distinct] exact_ops)

lemma twin_vector:
  "tfidf_vector exact_arith (idf (built_index exact_arith twin_catalog)) ''Goa Goa beach beach Sunny''
   = [(''goa'', 2 / 5 * ln (5 / 3)), (''beach'', 2 / 5 * ln (5 / 3)),
      (''sunny'', 1 / 5 * ln (5 / 3))]"
  by (simp add: exact_ops tfidf_vector_eq twin_tokens twin_counter twin_idf dict_get_def)

lemma ln_five_thirds_pos: "0 < ln (5 / 3 :: real)"
  by (rule ln_gt_zero) simp

lemma twin_norm:
  "vector_norm exact_arith [(''goa'', 2 / 5 * ln (5 / 3)), (''beach'', 2 / 5 * ln (5 / 3)),
                (''sunny'', 1 / 5 * ln (5 / 3))] = 3 / 5 * ln (5 / 3)"
proof -
  define L where "L = ln (5 / 3 :: real)"
  have L: "0 < L" unfolding L_def by (rule ln_five_thirds_pos)
  have "(2 / 5 * L)\<^sup>2 + ((2 / 5 * L)\<^sup>2 + (1 / 5 * L)\<^sup>2) = (3 / 5 * L)\<^sup>2"
    by (simp add: power2_eq_square algebra_simps)
  then have "sqrt ((2 / 5 * L)\<^sup>2 + ((2 / 5 * L)\<^sup>2 + (1 / 5 * L)\<^sup>2)) = 3 / 5 * L"
    using L by (simp del: power_mult_distrib power_divide)
  then show ?thesis by (simp add: vector_norm_exact L_def)
qed

lemma twin_query:
  "vectorize_query exact_arith (built_index exact_arith twin_catalog) ''goa'' = [(''goa'', ln (5 / 3))]"
proof -
  have t: "tokenize ''goa'' = [''goa'']" by code_simp
  have c: "Counter [''goa''] = [(''goa'', 1)]" by code_simp
  show ?thesis
    by (simp add: exact_ops vectorize_query_eq t c twin_idf dict_get_def dict_contains_def)
qed

lemma twin_query_norm: "vector_norm exact_arith [(''goa'', ln (5 / 3))] = ln (5 / 3)"
  using ln_five_thirds_pos by (simp add: vector_norm_exact)

lemma twin_query_nonzero:
  "vector_norm exact_arith (vectorize_query exact_arith (built_index exact_arith twin_catalog) ''goa'')
   \<noteq> 0"
  using ln_five_thirds_pos by (simp add: twin_query twin_query_norm)

lemma twin_scores:
  "query_scores exact_arith (built_index exact_arith twin_catalog) ''goa''
   = Inr [(''goa_north'', 2 / 3), (''goa_south'', 2 / 3)]"
proof -
  define L where "L = ln (5 / 3 :: real)"
  have L: "0 < L" unfolding L_def by (rule ln_five_thirds_pos)
  have tfv: "tf_vectors (built_index exact_arith twin_catalog)
     = [(''goa_north'', [(''goa'', 2 / 5 * L), (''beach'', 2 / 5 * L), (''sunny'', 1 / 5 * L)]),
        (''goa_south'', [(''goa'', 2 / 5 * L), (''beach'', 2 / 5 * L), (''sunny'', 1 / 5 * L)])]"
    using twin_vector
    by (simp add: built_index_def Let_def twin_docs twin_catalog_def full_text_def
          numeral_2_eq_2 L_def)
  have nrm: "vector_norm exact_arith [(''goa'', 2 / 5 * L), (''beach'', 2 / 5 * L), (''sunny'', 1 / 5 * L)]
               = 3 / 5 * L"
    unfolding L_def by (rule twin_norm)
  have dot: "dot_product exact_arith [(''goa'', L)]
               [(''goa'', 2 / 5 * L), (''beach'', 2 / 5 * L), (''sunny'', 1 / 5 * L)]
             = L * (2 / 5 * L)"
    by (simp add: dot_product_def exact_ops)
  have cos: "cosine exact_arith [(''goa'', L)] L
               [(''goa'', 2 / 5 * L), (''beach'', 2 / 5 * L), (''sunny'', 1 / 5 * L)] = 2 / 3"
    unfolding cosine_def nrm dot exact_ops using L by simp
  show ?thesis
    unfolding query_scores_built[OF twin_distinct exact_denominator[OF twin_query_nonzero]]
      twin_query twin_query_norm
    unfolding tfv L_def[symmetric] by (simp only: list.map prod.case cos)
qed

lemma py_round1_two_thirds: "py_round1 exact_arith (200 / 3) = 667 / 10"
proof -
  have f: "\<lfloor>2000 / 3 :: real\<rfloor> = 666" by (simp add: floor_eq_iff)
  show ?thesis by (simp add: py_round1_def exact_ops round_half_even_def f)
qed


lemma twin_built: "AIRecommender exact_arith twin_catalog = Inr (built_index exact_arith twin_catalog)"
  by (rule AIRecommender_built[OF twin_distinct])









lemma ln_three_halves_pos: "0 < ln (3 / 2 :: real)"
  by (rule ln_gt_zero) simp











lemma twin_recommend_one:
  "recommend exact_arith (built_index exact_arith twin_catalog) ''goa'' 1
   = Inr [\<lparr>res_id = ''goa_north'', res_name = ''Goa'', match_score = 667 / 10,
            res_type = [''beach''], res_eco_score = 7, res_description = ''Sunny''\<rparr>]"
proof -
  have d: "destinations (built_index exact_arith twin_catalog)
     = [(''goa_north'', \<lparr>name = ''Goa'', type = Some [''beach''], eco_score = 7,
                      description = Some ''Sunny'', sustainability_features = None\<rparr>),
        (''goa_south'', \<lparr>name = ''Goa'', type = Some [''beach''], eco_score = 6,
                      description = Some ''Sunny'', sustainability_features = None\<rparr>)]"
    by (simp add: built_index_def Let_def twin_catalog_def)
  have n: "vector_norm exact_arith (vectorize_query exact_arith (built_index exact_arith twin_catalog) ''goa'') \<noteq> 0"
    using ln_five_thirds_pos by (simp add: twin_query twin_query_norm)
  have "recommend exact_arith (built_index exact_arith twin_catalog) ''goa'' 1
        = format_loop exact_arith (built_index exact_arith twin_catalog)
            (slice_to (sort_desc [(''goa_north'', 2 / 3), (''goa_south'', 2 / 3)]) 1)"
    using n twin_scores by (simp add: recommend_def query_scores_def Let_def)
  also have "\<dots> = format_loop exact_arith (built_index exact_arith twin_catalog) [(''goa_north'', 2 / 3)]"
    by (simp add: sort_desc_def slice_to_def)
  also have "\<dots> = Inr [\<lparr>res_id = ''goa_north'', res_name = ''Goa'', match_score = 667 / 10,
            res_type = [''beach''], res_eco_score = 7, res_description = ''Sunny''\<rparr>]"
    by (simp add: format_result_def d dict_item_def entry_field_def exact_ops py_round1_two_thirds)
  finally show ?thesis .
qed




theorem recommend_refines_spec_witness:
  "(0 :: int) \<le> 1
   \<and> recommend_spec exact_arith (built_index exact_arith twin_catalog) ''goa'' 1
     = Inr [\<lparr>res_id = ''goa_north'', res_name = ''Goa'', match_score = 667 / 10,
              res_type = [''beach''], res_eco_score = 7, res_description = ''Sunny''\<rparr>]
   \<and> length [\<lparr>res_id = ''goa_north'', res_name = ''Goa'', match_score = 667 / 10,
              res_type = [''beach''], res_eco_score = 7, res_description = ''Sunny''\<rparr>]
     \<le> nat 1"
proof -
  have h: "(0 :: int) \<le> 1" by simp
  show ?thesis
    using recommend_refines_spec[OF h, of exact_arith "built_index exact_arith twin_catalog"
        "''goa''"]
      twin_recommend_one by simp
qed


theorem no_signal_query_witness:
  "recommend exact_arith (built_index exact_arith twin_catalog) ''zzxxqq wwvvrr'' 3 = Inr []
   \<and> tokenize ''the and of'' = []
   \<and> recommend exact_arith (built_index exact_arith twin_catalog) ''the and of'' 3 = Inr []"
proof -
  have t: "tokenize ''zzxxqq wwvvrr'' = [''zzxxqq'', ''wwvvrr'']" by code_simp
  have u: "\<forall>t \<in> set (tokenize ''zzxxqq wwvvrr'').
             \<not> dict_contains (idf (built_index exact_arith twin_catalog)) t"
    by (simp add: t twin_idf dict_contains_def)
  have s: "set (str_split (strip_special (str_lower ''the and of''))) \<subseteq> set stop_words"
    by code_simp
  note n1 = no_signal_query[OF exact_rounding(2),
      of "built_index exact_arith twin_catalog" "''the and of''" 3]
  note n2 = no_signal_query[OF exact_rounding(2),
      of "built_index exact_arith twin_catalog" "''zzxxqq wwvvrr''" 3]
  have e: "tokenize ''the and of'' = []" using n1 s by blast
  then have v: "\<forall>t \<in> set (tokenize ''the and of'').
             \<not> dict_contains (idf (built_index exact_arith twin_catalog)) t" by simp
  show ?thesis using n1 n2 u v e by blast
qed

theorem idf_table_spec_witness:
  "map_of (idf (built_index exact_arith twin_catalog)) ''goa'' = Some (ln (1 + 2 / (2 + 1)))
   \<and> map_of (idf (built_index exact_arith twin_catalog)) ''hills'' = None"
proof -
  let ?s0 = "prepare_corpus \<lparr>destinations = twin_catalog, corpus = [], doc_ids = [], idf = [],
                             tf_vectors = [], doc_norms = []\<rparr>"
  have c: "corpus ?s0 = [''Goa Goa beach beach Sunny'', ''Goa Goa beach beach Sunny'']"
    by (simp add: prepare_corpus_eq twin_docs)
  have h: "compute_tfidf exact_arith ?s0 = Inr (built_index exact_arith twin_catalog)"
    using twin_built by (simp add: AIRecommender_def)
  show ?thesis
    using idf_table_spec[of exact_arith ?s0 "built_index exact_arith twin_catalog" "''goa''"
            "built_index exact_arith twin_catalog"]
      idf_table_spec[of exact_arith ?s0 "built_index exact_arith twin_catalog" "''hills''"
            "built_index exact_arith twin_catalog"] h
    unfolding c by (simp add: twin_tokens exact_ops)
qed

lemma sparse_distinct: "distinct (map fst sparse_catalog)"
  by (simp add: sparse_catalog_def)

lemma sparse_built: "AIRecommender exact_arith sparse_catalog = Inr (built_index exact_arith sparse_catalog)"
  by (rule AIRecommender_built[OF sparse_distinct])

lemma sparse_docs:
  "map (\<lambda>(dest_id, data). full_text data) sparse_catalog = [''Goa Goa beach beach '']"
  by (simp add: sparse_catalog_def full_text_def numeral_2_eq_2)

lemma sparse_tokens:
  "tokenize ''Goa Goa beach beach '' = [''goa'', ''goa'', ''beach'', ''beach'']"
  by code_simp

lemma sparse_counter:
  "Counter [''goa'', ''goa'', ''beach'', ''beach''] = [(''goa'', 2), (''beach'', 2)]"
  by code_simp

lemma sparse_df:
  "document_frequency [''Goa Goa beach beach ''] = [(''goa'', 1), (''beach'', 1)]"
  by code_simp

lemma sparse_idf:
  "idf (built_index exact_arith sparse_catalog) = [(''goa'', ln (3 / 2)), (''beach'', ln (3 / 2))]"
  by (simp add: built_index_def Let_def sparse_docs sparse_df
        inverse_document_frequency_eq[OF document_frequency_distinct] exact_ops)

lemma sparse_vector:
  "tfidf_vector exact_arith (idf (built_index exact_arith sparse_catalog)) ''Goa Goa beach beach ''
   = [(''goa'', 1 / 2 * ln (3 / 2)), (''beach'', 1 / 2 * ln (3 / 2))]"
  by (simp add: exact_ops tfidf_vector_eq sparse_tokens sparse_counter sparse_idf dict_get_def)

lemma sparse_norm:
  "vector_norm exact_arith [(''goa'', 1 / 2 * ln (3 / 2)), (''beach'', 1 / 2 * ln (3 / 2))]
   = sqrt 2 * (ln (3 / 2) / 2)"
proof -
  define L where "L = ln (3 / 2 :: real)"
  have L: "0 < L" unfolding L_def by (rule ln_three_halves_pos)
  have "(1 / 2 * L)\<^sup>2 + (1 / 2 * L)\<^sup>2 = 2 * (L / 2)\<^sup>2"
    by (simp add: power2_eq_square algebra_simps)
  then have "sqrt ((1 / 2 * L)\<^sup>2 + (1 / 2 * L)\<^sup>2) = sqrt (2 * (L / 2)\<^sup>2)"
    by (rule arg_cong)
  also have "\<dots> = sqrt 2 * (L / 2)"
    using L by (simp only: real_sqrt_mult real_sqrt_abs)
  finally show ?thesis by (simp add: vector_norm_exact L_def)
qed

lemma sparse_query:
  "vectorize_query exact_arith (built_index exact_arith sparse_catalog) ''goa'' = [(''goa'', ln (3 / 2))]"
proof -
  have t: "tokenize ''goa'' = [''goa'']" by code_simp
  have c: "Counter [''goa''] = [(''goa'', 1)]" by code_simp
  show ?thesis
    by (simp add: exact_ops vectorize_query_eq t c sparse_idf dict_get_def dict_contains_def)
qed

lemma sparse_query_norm: "vector_norm exact_arith [(''goa'', ln (3 / 2))] = ln (3 / 2)"
  using ln_three_halves_pos by (simp add: vector_norm_exact)

lemma sparse_query_nonzero:
  "vector_norm exact_arith (vectorize_query exact_arith (built_index exact_arith sparse_catalog) ''goa'')
   \<noteq> 0"
  using ln_three_halves_pos by (simp add: sparse_query sparse_query_norm)

lemma sparse_scores:
  "query_scores exact_arith (built_index exact_arith sparse_catalog) ''goa'' = Inr [(''goa'', 1 / sqrt 2)]"
proof -
  define L where "L = ln (3 / 2 :: real)"
  have L: "0 < L" unfolding L_def by (rule ln_three_halves_pos)
  have tfv: "tf_vectors (built_index exact_arith sparse_catalog)
     = [(''goa'', [(''goa'', 1 / 2 * L), (''beach'', 1 / 2 * L)])]"
  proof -
    have "tf_vectors (built_index exact_arith sparse_catalog)
          = [(''goa'', tfidf_vector exact_arith (idf (built_index exact_arith sparse_catalog)) ''Goa Goa beach beach '')]"
      using sparse_docs by (simp add: built_index_def Let_def sparse_catalog_def)
    then show ?thesis unfolding sparse_vector L_def .
  qed
  have nrm: "vector_norm exact_arith [(''goa'', 1 / 2 * L), (''beach'', 1 / 2 * L)] = sqrt 2 * (L / 2)"
    unfolding L_def by (rule sparse_norm)
  have dot: "dot_product exact_arith [(''goa'', L)] [(''goa'', 1 / 2 * L), (''beach'', 1 / 2 * L)]
             = L * (1 / 2 * L)"
    by (simp add: dot_product_def exact_ops)
  have s: "0 < sqrt (2 :: real)" by simp
  have cos: "cosine exact_arith [(''goa'', L)] L [(''goa'', 1 / 2 * L), (''beach'', 1 / 2 * L)]
             = 1 / sqrt 2"
    unfolding cosine_def nrm dot exact_ops using L s by (simp add: field_simps)
  show ?thesis
    unfolding query_scores_built[OF sparse_distinct exact_denominator[OF sparse_query_nonzero]]
      sparse_query sparse_query_norm
    unfolding tfv L_def[symmetric] by (simp only: list.map prod.case cos)
qed

lemma sparse_similarity: "5 / 100 < 1 / sqrt 2"
proof -
  have "sqrt 2 < 20" by (rule real_less_lsqrt) simp_all
  then show ?thesis by (simp add: field_simps)
qed

text \<open>
  Claim C2. A destination without the key \<open>description\<close> is indexed without error
  (\<open>_prepare_corpus\<close> reads the key with a default), but \<open>get_suggestions\<close> and the
  result formatting of \<open>recommend\<close> read \<open>data['description']\<close> and raise \<open>KeyError\<close>
  as soon as the destination is selected. The similarity of the one document is
  \<open>1 / sqrt 2\<close>, far above the threshold.
\<close>

theorem missing_description_raises:
  "AIRecommender exact_arith sparse_catalog = Inr (built_index exact_arith sparse_catalog)
   \<and> get_suggestions (built_index exact_arith sparse_catalog) ''beach'' = Inl (KeyError ''description'')
   \<and> recommend exact_arith (built_index exact_arith sparse_catalog) ''goa'' 3 = Inl (KeyError ''description'')"
proof -
  have d: "destinations (built_index exact_arith sparse_catalog) = sparse_catalog"
    by (simp add: built_index_def Let_def)
  have g: "get_suggestions (built_index exact_arith sparse_catalog) ''beach''
           = Inl (KeyError ''description'')"
    unfolding get_suggestions_def d
    by (simp add: sparse_catalog_def suggestion_def entry_field_def)
  have n: "vector_norm exact_arith (vectorize_query exact_arith (built_index exact_arith sparse_catalog) ''goa'') \<noteq> 0"
    using ln_three_halves_pos by (simp add: sparse_query sparse_query_norm)
  have "recommend exact_arith (built_index exact_arith sparse_catalog) ''goa'' 3
        = format_loop exact_arith (built_index exact_arith sparse_catalog)
            (slice_to (sort_desc [(''goa'', 1 / sqrt 2)]) 3)"
    using n sparse_scores by (simp add: recommend_def query_scores_def Let_def)
  also have "\<dots> = format_loop exact_arith (built_index exact_arith sparse_catalog) [(''goa'', 1 / sqrt 2)]"
    by (simp add: sort_desc_def slice_to_def)
  also have "\<dots> = (case format_result exact_arith (built_index exact_arith sparse_catalog) ''goa'' (1 / sqrt 2) of
                      Inl e \<Rightarrow> Inl e | Inr r \<Rightarrow> Inr [r])"
    using sparse_similarity by (simp add: exact_ops split: sum.splits)
  also have "format_result exact_arith (built_index exact_arith sparse_catalog) ''goa'' (1 / sqrt 2)
             = Inl (KeyError ''description'')"
    unfolding format_result_def d
    by (simp add: sparse_catalog_def dict_item_def entry_field_def)
  finally have r: "recommend exact_arith (built_index exact_arith sparse_catalog) ''goa'' 3
                   = Inl (KeyError ''description'')" by simp
  show ?thesis using sparse_built g r by simp
qed

end
